theory Spec2Isabelle
  imports Main "HOL-Library.AList"
begin

section \<open>Python values used by app.py\<close>

text \<open>
  A Python \<open>str\<close> is modelled as a \<open>string\<close>; a \<open>char\<close> stands for a code point
  below 256. Every exception the program or one of its collaborators can raise is a
  value of \<open>exn\<close>, and a computation that may raise returns \<open>exn + 'a\<close>.
\<close>

datatype exn =
    ValueError
  | KeyError string
  | LangDetectException
  | TranslationError
  | IllegalCharacterError
  | OtherError string

definition newline :: char where
  "newline = CHR 0x0A"

text \<open>\<open>str.isspace\<close> of one code point below 256.\<close>

definition isspace :: "char \<Rightarrow> bool" where
  "isspace c =
     (let n = (of_char c :: nat)
      in (9 \<le> n \<and> n \<le> 13) \<or> (28 \<le> n \<and> n \<le> 32) \<or> n = 133 \<or> n = 160)"

text \<open>\<open>s.strip()\<close>: leading and trailing whitespace removed.\<close>

definition strip :: "string \<Rightarrow> string" where
  "strip s = rev (dropWhile isspace (rev (dropWhile isspace s)))"

text \<open>\<open>s.split(sep)\<close> for a one-character separator: never an empty list.\<close>

fun str_split :: "char \<Rightarrow> string \<Rightarrow> string list" where
  "str_split sep [] = [[]]"
| "str_split sep (c # cs) =
     (if c = sep then [] # str_split sep cs
      else (case str_split sep cs of
              [] \<Rightarrow> [[c]]
            | w # ws \<Rightarrow> (c # w) # ws))"

text \<open>\<open>sep.join(parts)\<close> for a one-character separator.\<close>

fun str_join :: "char \<Rightarrow> string list \<Rightarrow> string" where
  "str_join sep [] = []"
| "str_join sep [part] = part"
| "str_join sep (part # next_part # parts) = part @ sep # str_join sep (next_part # parts)"

text \<open>\<open>max(...)\<close> of a sequence of lengths; Python raises ValueError on an empty one.\<close>

fun py_max :: "nat list \<Rightarrow> exn + nat" where
  "py_max [] = Inl ValueError"
| "py_max (x # xs) = Inr (fold max xs x)"

text \<open>\<open>str(n)\<close> of an integer: its decimal digits, with a sign when negative.\<close>

definition digit_char :: "nat \<Rightarrow> char" where
  "digit_char d = char_of (48 + d)"

function str_nat :: "nat \<Rightarrow> string" where
  "str_nat n = (if n < 10 then [digit_char n] else str_nat (n div 10) @ [digit_char (n mod 10)])"
  by pat_completeness auto
termination
  by (relation "measure id") auto

declare str_nat.simps [simp del]

definition str_int :: "int \<Rightarrow> string" where
  "str_int i = (if i < 0 then CHR ''-'' # str_nat (nat (- i)) else str_nat (nat i))"

section \<open>Tables\<close>

text \<open>
  A pandas DataFrame as the program uses it: the column labels and the rows of cells,
  every row holding one cell per column. camelot labels the columns with integers and
  fills the cells with strings.
\<close>

datatype label = IntLabel int | StrLabel string

fun str_label :: "label \<Rightarrow> string" where
  "str_label (IntLabel i) = str_int i"
| "str_label (StrLabel s) = s"

record DataFrame =
  columns :: "label list"
  rows :: "string list list"

definition rectangular :: "DataFrame \<Rightarrow> bool" where
  "rectangular frame = list_all (\<lambda>row. length row = length (columns frame)) (rows frame)"

text \<open>\<open>df.empty\<close>: some axis has length zero.\<close>

definition df_empty :: "DataFrame \<Rightarrow> bool" where
  "df_empty frame = (rows frame = [] \<or> columns frame = [])"

record Table =
  page :: int
  df :: DataFrame

section \<open>Helpers: translate\_text and translate\_df\<close>

text \<open>
  The two external services: \<open>detect(text)\<close> of langdetect and
  \<open>GoogleTranslator(source='auto', target=t).translate(text)\<close>. Either may raise.
  Each invocation is recorded as a \<open>call\<close>.
\<close>

record services =
  detect :: "string \<Rightarrow> exn + string"
  translate :: "string \<Rightarrow> string \<Rightarrow> exn + string"

datatype call = Detect string | Translate string string

fun is_Translate :: "call \<Rightarrow> bool" where
  "is_Translate (Detect t) = False"
| "is_Translate (Translate l t) = True"

text \<open>
  The body of the \<open>try\<close> block with the final \<open>return text\<close>, run on the stripped text:
  the value returned or the exception raised, and the calls made.
\<close>

definition translate_try :: "services \<Rightarrow> string \<Rightarrow> string \<Rightarrow> (exn + string) \<times> call list" where
  "translate_try env text target_lang =
     (if text = [] then (Inr text, [])
      else (case detect env text of
              Inl e \<Rightarrow> (Inl e, [Detect text])
            | Inr lang \<Rightarrow>
                if lang \<noteq> target_lang
                then (translate env target_lang text, [Detect text, Translate target_lang text])
                else (Inr text, [Detect text])))"

text \<open>
  \<open>translate_text\<close>: \<open>text\<close> is rebound to \<open>str(text).strip()\<close> before anything can
  raise, so the bare \<open>except\<close> returns the stripped text.
\<close>

definition translate_text :: "services \<Rightarrow> string \<Rightarrow> string \<Rightarrow> (exn + string) \<times> call list" where
  "translate_text env text0 target_lang =
     (let text = strip text0
      in (case translate_try env text target_lang of
            (Inl e, calls) \<Rightarrow> (Inr text, calls)
          | (Inr r, calls) \<Rightarrow> (Inr r, calls)))"

primrec traverse :: "('a \<Rightarrow> exn + 'b) \<Rightarrow> 'a list \<Rightarrow> exn + 'b list" where
  "traverse f [] = Inr []"
| "traverse f (x # xs) =
     (case f x of
        Inl e \<Rightarrow> Inl e
      | Inr y \<Rightarrow> (case traverse f xs of Inl e \<Rightarrow> Inl e | Inr ys \<Rightarrow> Inr (y # ys)))"

text \<open>\<open>df.applymap(lambda x: translate_text(x, target_lang))\<close>: the values, cell by cell.\<close>

definition translate_df :: "services \<Rightarrow> DataFrame \<Rightarrow> string \<Rightarrow> exn + DataFrame" where
  "translate_df env frame target_lang =
     (case traverse (traverse (\<lambda>x. fst (translate_text env x target_lang))) (rows frame) of
        Inl e \<Rightarrow> Inl e
      | Inr new_rows \<Rightarrow> Inr (frame\<lparr>rows := new_rows\<rparr>))"

section \<open>Helpers: split\_merged\_rows\<close>

definition segments :: "string \<Rightarrow> string list" where
  "segments cell = str_split newline cell"

text \<open>The rows appended to \<open>new_rows\<close> by one iteration of the loop over the rows.\<close>

definition expand_row :: "string list \<Rightarrow> exn + string list list" where
  "expand_row row =
     (if list_ex (\<lambda>cell. newline \<in> set cell) row
      then (let parts = map segments row
            in (case py_max (map length parts) of
                  Inl e \<Rightarrow> Inl e
                | Inr max_len \<Rightarrow>
                    Inr (map (\<lambda>i. map (\<lambda>p. if i < length p then p ! i else []) parts)
                             [0..<max_len])))
      else Inr [row])"

fun split_loop :: "string list list \<Rightarrow> string list list \<Rightarrow> exn + string list list" where
  "split_loop [] new_rows = Inr new_rows"
| "split_loop (row # rest) new_rows =
     (case expand_row row of
        Inl e \<Rightarrow> Inl e
      | Inr sub_rows \<Rightarrow> split_loop rest (new_rows @ sub_rows))"

text \<open>
  \<open>pd.DataFrame(new_rows, columns=df.columns)\<close>: the labels of the input over the new
  rows, each of which has one cell per column when the input is \<open>rectangular\<close>.
\<close>

definition split_merged_rows :: "DataFrame \<Rightarrow> exn + DataFrame" where
  "split_merged_rows frame =
     (case split_loop (rows frame) [] of
        Inl e \<Rightarrow> Inl e
      | Inr new_rows \<Rightarrow> Inr \<lparr>columns = columns frame, rows = new_rows\<rparr>)"

section \<open>Helpers: format\_excel and the processing loop\<close>

text \<open>
  The ExcelWriter is modelled by the sheets of its workbook, in order: the title of each
  sheet and the values of its cells, row by row, the header row first.
\<close>

type_synonym ExcelWriter = "(string \<times> string list list) list"

text \<open>
  openpyxl's check of a string value put into a cell: the value is cut to 32767
  characters and refused when it then holds a control character other than tab, line
  feed and carriage return.
\<close>

definition illegal_character :: "char \<Rightarrow> bool" where
  "illegal_character c =
     (let n = (of_char c :: nat)
      in n \<le> 8 \<or> n = 11 \<or> n = 12 \<or> (14 \<le> n \<and> n \<le> 31))"

definition check_string :: "string \<Rightarrow> exn + string" where
  "check_string v =
     (let cut = take 32767 v
      in if list_ex illegal_character cut then Inl IllegalCharacterError else Inr cut)"

text \<open>
  Cells written over a sheet that exists already: a cell written replaces the one at its
  place, the other cells of the sheet stay.
\<close>

fun overlay :: "string list list \<Rightarrow> string list list \<Rightarrow> string list list" where
  "overlay [] old = old"
| "overlay (new_row # new_rows) [] = new_row # new_rows"
| "overlay (new_row # new_rows) (old_row # old_rows) =
     (new_row @ drop (length new_row) old_row) # overlay new_rows old_rows"

text \<open>
  \<open>df.to_excel(writer, sheet_name=name, index=False)\<close>: pandas refuses a frame larger
  than a sheet, then writes the column labels and the rows. A writer opened for writing
  reuses the sheet of that name when there is one and adds a sheet otherwise.
\<close>

definition to_excel :: "DataFrame \<Rightarrow> ExcelWriter \<Rightarrow> string \<Rightarrow> exn + ExcelWriter" where
  "to_excel frame writer name =
     (if 1048576 < length (rows frame) \<or> 16384 < length (columns frame) then Inl ValueError
      else (case traverse (traverse check_string) (map str_label (columns frame) # rows frame) of
              Inl e \<Rightarrow> Inl e
            | Inr written \<Rightarrow>
                Inr (AList.update name
                       (case map_of writer name of
                          None \<Rightarrow> written
                        | Some old \<Rightarrow> overlay written old)
                       writer)))"

definition format_excel :: "ExcelWriter \<Rightarrow> string \<Rightarrow> DataFrame \<Rightarrow> exn + ExcelWriter" where
  "format_excel writer sheet_name frame = to_excel frame writer (take 31 sheet_name)"

text \<open>The f-string \<open>f"Page_{table.page}_Table_{i+1}"\<close>.\<close>

definition sheet_name_of :: "int \<Rightarrow> nat \<Rightarrow> string" where
  "sheet_name_of p i = ''Page_'' @ str_int p @ ''_Table_'' @ str_int (int i + 1)"

text \<open>
  The loop \<open>for i, table in enumerate(tables)\<close> of the processing block; the state is
  the writer and the list \<open>all_dfs\<close> of sheet names. The cells are strings already, so
  \<open>df.astype(str)\<close> changes nothing.
\<close>

fun process_loop ::
  "services \<Rightarrow> bool \<Rightarrow> string \<Rightarrow> (nat \<times> Table) list \<Rightarrow> ExcelWriter \<times> string list
     \<Rightarrow> exn + ExcelWriter \<times> string list" where
  "process_loop env enable_translation lang [] st = Inr st"
| "process_loop env enable_translation lang ((i, table) # rest) (writer, all_dfs) =
     (if df_empty (df table) then process_loop env enable_translation lang rest (writer, all_dfs)
      else
        (let frame = (df table)\<lparr>columns := map (\<lambda>col. StrLabel (strip (str_label col)))
                                               (columns (df table))\<rparr>
         in (case split_merged_rows frame of
               Inl e \<Rightarrow> Inl e
             | Inr frame \<Rightarrow>
                 (case (if enable_translation then translate_df env frame lang else Inr frame) of
                    Inl e \<Rightarrow> Inl e
                  | Inr frame \<Rightarrow>
                      (let sheet_name = sheet_name_of (page table) i
                       in (case format_excel writer sheet_name frame of
                             Inl e \<Rightarrow> Inl e
                           | Inr writer \<Rightarrow>
                               process_loop env enable_translation lang rest
                                 (writer, all_dfs @ [take 31 sheet_name])))))))"

definition process_tables ::
  "services \<Rightarrow> bool \<Rightarrow> string \<Rightarrow> Table list \<Rightarrow> exn + ExcelWriter \<times> string list" where
  "process_tables env enable_translation lang tables =
     process_loop env enable_translation lang (enumerate 0 tables) ([], [])"

section \<open>Helpers: post\_formatting\<close>

text \<open>
  An openpyxl workbook: its sheets by title, in order. A worksheet is the grid of cells of
  its used range, every row as wide as the range, and the column dimensions by column
  letter. The buffer \<open>excel_io\<close> is modelled by the workbook it holds.
\<close>

record Alignment =
  horizontal :: "string option"
  vertical :: "string option"
  text_rotation :: int
  wrap_text :: "bool option"
  shrink_to_fit :: "bool option"
  indent :: int

record Cell =
  cell_value :: string
  alignment :: Alignment

record ColumnDimension =
  width :: int
  hidden :: bool

record Worksheet =
  cells :: "Cell list list"
  column_dimensions :: "(string \<times> ColumnDimension) list"

type_synonym Workbook = "(string \<times> Worksheet) list"

text \<open>\<open>Alignment(wrap_text=True)\<close>: every other attribute at its default.\<close>

definition wrap_alignment :: Alignment where
  "wrap_alignment =
     \<lparr>horizontal = None, vertical = None, text_rotation = 0, wrap_text = Some True,
      shrink_to_fit = None, indent = 0\<rparr>"

definition default_dimension :: ColumnDimension where
  "default_dimension = \<lparr>width = 13, hidden = False\<rparr>"

text \<open>\<open>get_column_letter\<close>: A..Z, AA..ZZ, AAA..ZZZ; ValueError outside 1..18278.\<close>

function letters :: "nat \<Rightarrow> string" where
  "letters n = (if n = 0 then [] else letters ((n - 1) div 26) @ [char_of (65 + (n - 1) mod 26)])"
  by pat_completeness auto
termination
  by (relation "measure id") auto

declare letters.simps [simp del]

definition get_column_letter :: "nat \<Rightarrow> exn + string" where
  "get_column_letter idx =
     (if 1 \<le> idx \<and> idx \<le> 18278 then Inr (letters idx) else Inl ValueError)"

text \<open>\<open>ws.column_dimensions[col_letter]\<close>: the dimension is created on first access.\<close>

definition dimension_at :: "(string \<times> ColumnDimension) list \<Rightarrow> string \<Rightarrow> ColumnDimension" where
  "dimension_at dims col_letter =
     (case map_of dims col_letter of None \<Rightarrow> default_dimension | Some d \<Rightarrow> d)"

text \<open>The loop \<open>for col in ws.columns\<close>, over the column numbers of the used range.\<close>

fun set_widths ::
  "nat list \<Rightarrow> (string \<times> ColumnDimension) list \<Rightarrow> exn + (string \<times> ColumnDimension) list" where
  "set_widths [] dims = Inr dims"
| "set_widths (col # cols) dims =
     (case get_column_letter col of
        Inl e \<Rightarrow> Inl e
      | Inr col_letter \<Rightarrow>
          set_widths cols
            (AList.update col_letter ((dimension_at dims col_letter)\<lparr>width := 35\<rparr>) dims))"

definition ws_columns :: "Worksheet \<Rightarrow> nat list" where
  "ws_columns ws = (case cells ws of [] \<Rightarrow> [] | row # _ \<Rightarrow> [1..<Suc (length row)])"

text \<open>The body of \<open>for sheet in sheet_names\<close> on one worksheet.\<close>

definition format_sheet :: "Worksheet \<Rightarrow> exn + Worksheet" where
  "format_sheet ws =
     (let wrapped = map (map (\<lambda>cell. cell\<lparr>alignment := wrap_alignment\<rparr>)) (cells ws)
      in (case set_widths (ws_columns ws) (column_dimensions ws) of
            Inl e \<Rightarrow> Inl e
          | Inr dims \<Rightarrow> Inr \<lparr>cells = wrapped, column_dimensions = dims\<rparr>))"

fun format_loop :: "string list \<Rightarrow> Workbook \<Rightarrow> exn + Workbook" where
  "format_loop [] wb = Inr wb"
| "format_loop (sheet # sheets) wb =
     (case map_of wb sheet of
        None \<Rightarrow> Inl (KeyError sheet)
      | Some ws \<Rightarrow>
          (case format_sheet ws of
             Inl e \<Rightarrow> Inl e
           | Inr ws' \<Rightarrow> format_loop sheets (AList.update sheet ws' wb)))"

text \<open>
  \<open>post_formatting\<close>: the workbook saved back into \<open>excel_io\<close>, or the exception that
  left the buffer as it was.
\<close>

definition post_formatting :: "Workbook \<Rightarrow> string list \<Rightarrow> exn + Workbook" where
  "post_formatting excel_io sheet_names = format_loop sheet_names excel_io"

section \<open>Sample inputs\<close>

text \<open>Services that answer every call the same way, for the concrete instances below.\<close>

definition constant_services :: "exn + string \<Rightarrow> exn + string \<Rightarrow> services" where
  "constant_services detected translated =
     \<lparr>detect = (\<lambda>text. detected), translate = (\<lambda>target_lang text. translated)\<rparr>"

text \<open>A table of one row with a merged cell, and a table without rows, both on page 1.\<close>

definition merged_table :: Table where
  "merged_table =
     \<lparr>page = 1,
      df = \<lparr>columns = [IntLabel 0, IntLabel 1], rows = [[''X'', ''A'' @ newline # ''B'']]\<rparr>\<rparr>"

definition no_rows_table :: Table where
  "no_rows_table = \<lparr>page = 1, df = \<lparr>columns = [IntLabel 0, IntLabel 1], rows = []\<rparr>\<rparr>"

text \<open>A table on page 1 with a form feed in a cell.\<close>

definition form_feed_table :: Table where
  "form_feed_table =
     \<lparr>page = 1, df = \<lparr>columns = [IntLabel 0], rows = [[''A'' @ CHR 0x0C # ''B'']]\<rparr>\<rparr>"

text \<open>A workbook of one sheet with two cells in one row, unformatted.\<close>

definition plain_cell :: "string \<Rightarrow> Cell" where
  "plain_cell v =
     \<lparr>cell_value = v,
      alignment = \<lparr>horizontal = None, vertical = None, text_rotation = 0, wrap_text = None,
                   shrink_to_fit = None, indent = 0\<rparr>\<rparr>"

definition sample_workbook :: Workbook where
  "sample_workbook =
     [(''Page_1_Table_1'',
       \<lparr>cells = [[plain_cell ''0'', plain_cell ''1'']], column_dimensions = []\<rparr>)]"

section \<open>Row expansion\<close>

lemma str_split_not_Nil: "str_split sep s \<noteq> []"
  by (induction s) (auto split: list.splits)

lemma length_str_split: "length (str_split sep s) = Suc (length (filter (\<lambda>c. c = sep) s))"
  by (induction s) (auto split: list.splits simp: str_split_not_Nil)

lemma str_split_no_sep: "sep \<notin> set s \<Longrightarrow> str_split sep s = [s]"
  by (induction s) auto

lemma str_split_no_sep_inside: "seg \<in> set (str_split sep s) \<Longrightarrow> sep \<notin> set seg"
proof (induction s arbitrary: seg)
  case Nil
  then show ?case by simp
next
  case (Cons c cs)
  obtain w ws where split: "str_split sep cs = w # ws"
    using str_split_not_Nil [of sep cs] by (cases "str_split sep cs") auto
  show ?case
  proof (cases "c = sep")
    case True
    with Cons.prems split have "seg = [] \<or> seg \<in> set (str_split sep cs)" by auto
    with Cons.IH show ?thesis by auto
  next
    case False
    with Cons.prems split have "seg = c # w \<or> seg \<in> set ws" by auto
    moreover have "sep \<notin> set w" using Cons.IH [of w] split by simp
    moreover have "seg \<in> set ws \<Longrightarrow> sep \<notin> set seg" using Cons.IH [of seg] split by simp
    ultimately show ?thesis using False by auto
  qed
qed

lemma str_join_Cons_char: "str_join sep ((c # w) # ws) = c # str_join sep (w # ws)"
  by (cases ws) simp_all

lemma str_join_split: "str_join sep (str_split sep s) = s"
proof (induction s)
  case Nil
  show ?case by simp
next
  case (Cons c cs)
  obtain w ws where split: "str_split sep cs = w # ws"
    using str_split_not_Nil [of sep cs] by (cases "str_split sep cs") auto
  show ?case
  proof (cases "c = sep")
    case True
    then have "str_join sep (str_split sep (c # cs)) = str_join sep ([] # w # ws)"
      using split by simp
    also have "\<dots> = sep # str_join sep (w # ws)" by simp
    finally show ?thesis using Cons.IH split True by simp
  next
    case False
    then have "str_join sep (str_split sep (c # cs)) = str_join sep ((c # w) # ws)"
      using split by simp
    also have "\<dots> = c # str_join sep (w # ws)" by (rule str_join_Cons_char)
    finally show ?thesis using Cons.IH split by simp
  qed
qed

lemma several_segments_iff: "1 < length (segments cell) \<longleftrightarrow> newline \<in> set cell"
  by (simp add: segments_def length_str_split filter_empty_conv)

lemma py_max_nonempty: "xs \<noteq> [] \<Longrightarrow> py_max xs = Inr (Max (set xs))"
proof (induction xs rule: py_max.induct)
  case 1
  then show ?case by simp
next
  case (2 x xs)
  show ?case using Max.set_eq_fold [of x xs] by simp
qed

lemma expand_row_plain:
  "\<not> list_ex (\<lambda>cell. newline \<in> set cell) row \<Longrightarrow> expand_row row = Inr [row]"
  by (simp add: expand_row_def)

lemma expand_row_merged:
  assumes "list_ex (\<lambda>cell. newline \<in> set cell) row"
  shows "expand_row row =
           Inr (map (\<lambda>i. map (\<lambda>cell. if i < length (segments cell) then segments cell ! i else []) row)
                    [0..<Max (set (map (\<lambda>cell. length (segments cell)) row))])"
proof -
  from assms have "row \<noteq> []" by auto
  then have "py_max (map length (map segments row)) = Inr (Max (set (map length (map segments row))))"
    by (intro py_max_nonempty) simp
  with assms show ?thesis
    by (simp add: expand_row_def o_def)
qed

lemma expand_row_total: "\<exists>sub_rows. expand_row row = Inr sub_rows"
  by (cases "list_ex (\<lambda>cell. newline \<in> set cell) row")
     (simp_all add: expand_row_plain expand_row_merged)

text \<open>The loop appends the expansion of each row, in the order of the rows.\<close>

lemma split_loop_concat:
  "\<exists>subs. split_loop rs acc = Inr (acc @ concat subs) \<and> length subs = length rs
      \<and> (\<forall>k < length rs. expand_row (rs ! k) = Inr (subs ! k))"
proof (induction rs arbitrary: acc)
  case Nil
  show ?case by simp
next
  case (Cons row rest)
  obtain sub where sub: "expand_row row = Inr sub"
    using expand_row_total by blast
  from Cons.IH [of "acc @ sub"] obtain subs where
    subs: "split_loop rest (acc @ sub) = Inr ((acc @ sub) @ concat subs)"
      "length subs = length rest" "\<forall>k < length rest. expand_row (rest ! k) = Inr (subs ! k)"
    by blast
  have "\<forall>k < length (row # rest). expand_row ((row # rest) ! k) = Inr ((sub # subs) ! k)"
    using sub subs(3) by (auto simp: nth_Cons split: nat.splits)
  with sub subs(1,2) show ?case
    by (intro exI [of _ "sub # subs"]) simp
qed

lemma expand_row_cells:
  assumes "expand_row row = Inr sub"
  shows "(list_ex (\<lambda>cell. 1 < length (segments cell)) row \<longrightarrow>
            length sub = Max (set (map (\<lambda>cell. length (segments cell)) row))
            \<and> (\<forall>i < length sub. \<forall>j < length row.
                  sub ! i ! j = (if i < length (segments (row ! j))
                                 then segments (row ! j) ! i else [])))
       \<and> (\<not> list_ex (\<lambda>cell. newline \<in> set cell) row \<longrightarrow> sub = [row])"
proof (cases "list_ex (\<lambda>cell. newline \<in> set cell) row")
  case True
  with assms expand_row_merged [of row] show ?thesis
    by auto
next
  case False
  then have "\<not> list_ex (\<lambda>cell. 1 < length (segments cell)) row"
    unfolding several_segments_iff .
  with False assms expand_row_plain [of row] show ?thesis
    by simp
qed

lemma expand_row_columns:
  assumes "expand_row row = Inr sub_rows" and "sub \<in> set sub_rows"
  shows "length sub = length row
         \<and> (\<forall>j < length row. sub ! j \<in> insert [] (set (segments (row ! j))))"
proof (cases "list_ex (\<lambda>cell. newline \<in> set cell) row")
  case True
  from expand_row_merged [OF True] assms(1) have
    "sub_rows = map (\<lambda>i. map (\<lambda>cell. if i < length (segments cell) then segments cell ! i else []) row)
                    [0..<Max (set (map (\<lambda>cell. length (segments cell)) row))]"
    by simp
  with assms(2) obtain i where
    "sub = map (\<lambda>cell. if i < length (segments cell) then segments cell ! i else []) row"
    by (auto simp del: map_eq_conv)
  then show ?thesis by simp
next
  case False
  with assms expand_row_plain [of row] have sub: "sub = row" by auto
  have "\<forall>j < length row. row ! j \<in> set (segments (row ! j))"
  proof (intro allI impI)
    fix j assume "j < length row"
    then have "newline \<notin> set (row ! j)"
      using False by (auto simp: list_ex_iff)
    then show "row ! j \<in> set (segments (row ! j))"
      by (simp add: segments_def str_split_no_sep)
  qed
  with sub show ?thesis by simp
qed

text \<open>
  Claim C1. The segments of a cell are its pieces between line breaks: none of them holds
  a line break, and joined by line breaks they give the cell back. \<open>split_merged_rows\<close>
  never raises and emits, row by row and in order, the expansion of each row: a row with
  a cell of more than one segment gives as many sub-rows as the largest segment count of
  its cells, sub-row \<open>i\<close> holding in column \<open>j\<close> segment \<open>i\<close> of cell \<open>j\<close> when that
  cell has one and the empty string otherwise; a row without a line break in any cell
  gives itself, once. The row \<open>["X", "A\nB"]\<close> gives exactly \<open>["X", "A"]\<close> and
  \<open>["", "B"]\<close>.
\<close>

theorem split_merged_rows_expansion:
  "(\<forall>seg \<in> set (segments cell). newline \<notin> set seg)
   \<and> str_join newline (segments cell) = cell
   \<and> (\<exists>subs. split_merged_rows frame = Inr \<lparr>columns = columns frame, rows = concat subs\<rparr>
      \<and> length subs = length (rows frame)
      \<and> (\<forall>k < length (rows frame).
            (list_ex (\<lambda>cell. 1 < length (segments cell)) (rows frame ! k) \<longrightarrow>
               length (subs ! k) = Max (set (map (\<lambda>cell. length (segments cell)) (rows frame ! k)))
               \<and> (\<forall>i < length (subs ! k). \<forall>j < length (rows frame ! k).
                     subs ! k ! i ! j =
                       (if i < length (segments (rows frame ! k ! j))
                        then segments (rows frame ! k ! j) ! i else [])))
          \<and> (\<not> list_ex (\<lambda>cell. newline \<in> set cell) (rows frame ! k) \<longrightarrow>
               subs ! k = [rows frame ! k])))
   \<and> split_merged_rows \<lparr>columns = cols, rows = [[''X'', ''A'' @ newline # ''B'']]\<rparr>
       = Inr \<lparr>columns = cols, rows = [[''X'', ''A''], ['''', ''B'']]\<rparr>"
  (is "?pieces \<and> ?joined
       \<and> (\<exists>subs. ?result subs \<and> ?count subs \<and> (\<forall>k < length (rows frame). ?row subs k))
       \<and> ?example")
proof (intro conjI)
  show ?pieces
    by (simp add: segments_def str_split_no_sep_inside)
  show ?joined
    by (simp add: segments_def str_join_split)
  show "\<exists>subs. ?result subs \<and> ?count subs \<and> (\<forall>k < length (rows frame). ?row subs k)"
  proof -
    from split_loop_concat [of "rows frame" "[]"] obtain subs where
      subs: "split_loop (rows frame) [] = Inr (concat subs)" "length subs = length (rows frame)"
        "\<forall>k < length (rows frame). expand_row (rows frame ! k) = Inr (subs ! k)"
      by auto
    have "?result subs"
      using subs(1) by (simp add: split_merged_rows_def)
    moreover have "\<forall>k < length (rows frame). ?row subs k"
    proof (intro allI impI)
      fix k assume "k < length (rows frame)"
      with subs(3) have "expand_row (rows frame ! k) = Inr (subs ! k)" by simp
      from expand_row_cells [OF this] show "?row subs k"
        by blast
    qed
    ultimately show ?thesis
      using subs(2) by blast
  qed
  show ?example
    by (simp add: split_merged_rows_def expand_row_def segments_def newline_def)
qed

theorem split_merged_rows_expansion_witness:
  "list_ex (\<lambda>cell. 1 < length (segments cell)) [''X'', ''A'' @ newline # ''B'']
   \<and> Max (set (map (\<lambda>cell. length (segments cell)) [''X'', ''A'' @ newline # ''B''])) = 2
   \<and> split_merged_rows \<lparr>columns = [IntLabel 0, IntLabel 1], rows = [[''X'', ''A'' @ newline # ''B'']]\<rparr>
       = Inr \<lparr>columns = [IntLabel 0, IntLabel 1], rows = [[''X'', ''A''], ['''', ''B'']]\<rparr>
   \<and> \<not> list_ex (\<lambda>cell. newline \<in> set cell) [''X'', ''Y'']
   \<and> split_merged_rows \<lparr>columns = [IntLabel 0, IntLabel 1], rows = [[''X'', ''Y'']]\<rparr>
       = Inr \<lparr>columns = [IntLabel 0, IntLabel 1], rows = [[''X'', ''Y'']]\<rparr>
   \<and> segments (''a'' @ newline # ''b'' @ newline # ''c'') = [''a'', ''b'', ''c'']
   \<and> str_join newline [''a'', ''b'', ''c''] = ''a'' @ newline # ''b'' @ newline # ''c''
   \<and> split_merged_rows
         \<lparr>columns = [IntLabel 0, IntLabel 1],
          rows = [[''a'' @ newline # ''b'' @ newline # ''c'', ''X'']]\<rparr>
       = Inr \<lparr>columns = [IntLabel 0, IntLabel 1],
              rows = [[''a'', ''X''], [''b'', ''''], [''c'', '''']]\<rparr>"
  using split_merged_rows_expansion
          [where frame = "\<lparr>columns = [IntLabel 0, IntLabel 1], rows = [[''X'', ''Y'']]\<rparr>"
             and cols = "[IntLabel 0, IntLabel 1]"
             and cell = "''a'' @ newline # ''b'' @ newline # ''c''"]
  by (simp add: segments_def newline_def split_merged_rows_def expand_row_def)

text \<open>
  Claim C3. Every row emitted by \<open>split_merged_rows\<close> for an input row has as many
  cells as that input row, and its cell in column \<open>j\<close> is a segment of the input cell in
  column \<open>j\<close> or the empty fill: no column is dropped or moved. The column labels are
  kept, and a rectangular frame stays rectangular.
\<close>

theorem split_merged_rows_columns:
  "\<exists>subs. split_merged_rows frame = Inr \<lparr>columns = columns frame, rows = concat subs\<rparr>
      \<and> length subs = length (rows frame)
      \<and> (\<forall>k < length (rows frame). \<forall>sub \<in> set (subs ! k).
            length sub = length (rows frame ! k)
            \<and> (\<forall>j < length sub. sub ! j \<in> insert [] (set (segments (rows frame ! k ! j)))))
      \<and> (rectangular frame \<longrightarrow> rectangular \<lparr>columns = columns frame, rows = concat subs\<rparr>)"
proof -
  from split_loop_concat [of "rows frame" "[]"] obtain subs where
    subs: "split_loop (rows frame) [] = Inr (concat subs)" "length subs = length (rows frame)"
      "\<forall>k < length (rows frame). expand_row (rows frame ! k) = Inr (subs ! k)"
    by auto
  have result: "split_merged_rows frame = Inr \<lparr>columns = columns frame, rows = concat subs\<rparr>"
    using subs(1) by (simp add: split_merged_rows_def)
  have cells: "\<forall>k < length (rows frame). \<forall>sub \<in> set (subs ! k).
            length sub = length (rows frame ! k)
            \<and> (\<forall>j < length sub. sub ! j \<in> insert [] (set (segments (rows frame ! k ! j))))"
  proof (intro allI impI ballI)
    fix k sub assume "k < length (rows frame)" and "sub \<in> set (subs ! k)"
    with subs(3) expand_row_columns [of "rows frame ! k" "subs ! k" sub]
    show "length sub = length (rows frame ! k)
            \<and> (\<forall>j < length sub. sub ! j \<in> insert [] (set (segments (rows frame ! k ! j))))"
      by simp
  qed
  have "rectangular \<lparr>columns = columns frame, rows = concat subs\<rparr>" if rect: "rectangular frame"
  proof -
    have "length sub = length (columns frame)" if "sub \<in> set (concat subs)" for sub
    proof -
      from that obtain sub_rows where "sub_rows \<in> set subs" "sub \<in> set sub_rows"
        by auto
      then obtain k where k: "k < length subs" "sub \<in> set (subs ! k)"
        by (metis in_set_conv_nth)
      with cells subs(2) have "length sub = length (rows frame ! k)" by simp
      moreover from rect k(1) subs(2) have "length (rows frame ! k) = length (columns frame)"
        by (simp add: rectangular_def list_all_length)
      ultimately show ?thesis by simp
    qed
    then show ?thesis by (simp add: rectangular_def list_all_iff)
  qed
  with result subs(2) cells show ?thesis by blast
qed

theorem split_merged_rows_columns_witness:
  "rectangular \<lparr>columns = [IntLabel 0, IntLabel 1], rows = [[''X'', ''A'' @ newline # ''B'']]\<rparr>
   \<and> split_merged_rows \<lparr>columns = [IntLabel 0, IntLabel 1], rows = [[''X'', ''A'' @ newline # ''B'']]\<rparr>
       = Inr \<lparr>columns = [IntLabel 0, IntLabel 1], rows = [[''X'', ''A''], ['''', ''B'']]\<rparr>
   \<and> rectangular \<lparr>columns = [IntLabel 0, IntLabel 1], rows = [[''X'', ''A''], ['''', ''B'']]\<rparr>"
  using split_merged_rows_columns
          [of "\<lparr>columns = [IntLabel 0, IntLabel 1], rows = [[''X'', ''A'' @ newline # ''B'']]\<rparr>"]
  by (simp add: segments_def newline_def split_merged_rows_def expand_row_def rectangular_def)

section \<open>Cell translation\<close>

lemma translate_text_returns: "\<exists>r. fst (translate_text env v target) = Inr r"
  by (simp add: translate_text_def translate_try_def Let_def split: sum.splits prod.splits)

lemma dropWhile_id_iff: "dropWhile P xs = xs \<longleftrightarrow> xs = [] \<or> \<not> P (hd xs)"
proof (cases xs)
  case Nil
  then show ?thesis by simp
next
  case (Cons x xs')
  have "length (dropWhile P xs') \<le> length xs'" by (rule length_dropWhile_le)
  then have "dropWhile P xs' \<noteq> x # xs'" by auto
  with Cons show ?thesis by simp
qed

lemma strip_changes_iff: "strip v \<noteq> v \<longleftrightarrow> v \<noteq> [] \<and> (isspace (hd v) \<or> isspace (last v))"
proof (cases "v = [] \<or> \<not> isspace (hd v)")
  case True
  then have "dropWhile isspace v = v" by (simp add: dropWhile_id_iff)
  then have "strip v = v \<longleftrightarrow> dropWhile isspace (rev v) = rev v"
    by (simp add: strip_def rev_swap)
  also have "\<dots> \<longleftrightarrow> v = [] \<or> \<not> isspace (last v)"
    by (simp add: dropWhile_id_iff hd_rev)
  finally show ?thesis using True by auto
next
  case False
  then have "dropWhile isspace v \<noteq> v" by (simp add: dropWhile_id_iff)
  have "length (strip v) \<le> length (dropWhile isspace v)"
    by (simp add: strip_def) (metis length_dropWhile_le length_rev)
  moreover have "length (dropWhile isspace v) < length v"
    using False by (cases v) (auto simp: le_imp_less_Suc length_dropWhile_le)
  ultimately have "strip v \<noteq> v" by auto
  with False show ?thesis by auto
qed

text \<open>
  Claim C2, as amended. \<open>translate_text\<close> never raises; when language identification
  raises, or it succeeds with a language other than the target and the translation
  provider raises, the value returned is the stripped text (the original value only when
  it carries no surrounding whitespace).
\<close>

theorem translate_text_absorbs_errors:
  "(\<exists>r. fst (translate_text env v target) = Inr r)
   \<and> ((\<exists>e. detect env (strip v) = Inl e)
        \<or> (\<exists>lang e. detect env (strip v) = Inr lang \<and> lang \<noteq> target
                     \<and> translate env target (strip v) = Inl e)
       \<longrightarrow> fst (translate_text env v target) = Inr (strip v))"
  by (auto simp: translate_text_def translate_try_def Let_def split: sum.splits prod.splits)

theorem translate_text_absorbs_errors_witness:
  "detect (constant_services (Inl LangDetectException) (Inr ''hola'')) (strip '' hello '')
      = Inl LangDetectException
   \<and> fst (translate_text (constant_services (Inl LangDetectException) (Inr ''hola'')) '' hello '' ''es'')
      = Inr ''hello''
   \<and> detect (constant_services (Inr ''en'') (Inl TranslationError)) (strip '' hello '') = Inr ''en''
   \<and> ''en'' \<noteq> ''es''
   \<and> translate (constant_services (Inr ''en'') (Inl TranslationError)) ''es'' (strip '' hello '')
      = Inl TranslationError
   \<and> fst (translate_text (constant_services (Inr ''en'') (Inl TranslationError)) '' hello '' ''es'')
      = Inr ''hello''"
  using translate_text_absorbs_errors
          [of "constant_services (Inl LangDetectException) (Inr ''hola'')" "'' hello ''" "''es''"]
        translate_text_absorbs_errors
          [of "constant_services (Inr ''en'') (Inl TranslationError)" "'' hello ''" "''es''"]
  by (simp add: constant_services_def strip_def isspace_def)

text \<open>
  The claim as stated fails on a padded value: identification raises on \<open>" hello "\<close>
  and the value returned is not \<open>" hello "\<close>.
\<close>

theorem translate_text_original_counterexample:
  "detect (constant_services (Inl LangDetectException) (Inr ''hola'')) (strip '' hello '')
      = Inl LangDetectException
   \<and> fst (translate_text (constant_services (Inl LangDetectException) (Inr ''hola'')) '' hello '' ''es'')
      \<noteq> Inr '' hello ''"
  by (simp add: translate_text_def translate_try_def constant_services_def strip_def isspace_def
        Let_def)

text \<open>
  Claim C4, as amended. When language identification succeeds and returns exactly the
  target language, \<open>translate_text\<close> returns the stripped text and makes no call to the
  translation provider.
\<close>

theorem translate_text_same_language_no_provider:
  "detect env (strip v) = Inr target \<longrightarrow>
     fst (translate_text env v target) = Inr (strip v)
     \<and> \<not> list_ex is_Translate (snd (translate_text env v target))"
  by (simp add: translate_text_def translate_try_def Let_def)

theorem translate_text_same_language_no_provider_witness:
  "detect (constant_services (Inr ''en'') (Inr ''hola'')) (strip '' hello '') = Inr ''en''
   \<and> translate_text (constant_services (Inr ''en'') (Inr ''hola'')) '' hello '' ''en''
      = (Inr ''hello'', [Detect ''hello''])
   \<and> \<not> list_ex is_Translate
          (snd (translate_text (constant_services (Inr ''en'') (Inr ''hola'')) '' hello '' ''en''))"
  using translate_text_same_language_no_provider
          [of "constant_services (Inr ''en'') (Inr ''hola'')" "'' hello ''" "''en''"]
  by (simp add: translate_text_def translate_try_def constant_services_def strip_def isspace_def
        Let_def)

text \<open>
  The claim as stated fails on a padded value: \<open>" hello "\<close> is identified as the target
  language and the value returned is not \<open>" hello "\<close>.
\<close>

theorem translate_text_same_language_counterexample:
  "detect (constant_services (Inr ''en'') (Inr ''hola'')) (strip '' hello '') = Inr ''en''
   \<and> fst (translate_text (constant_services (Inr ''en'') (Inr ''hola'')) '' hello '' ''en'')
      \<noteq> Inr '' hello ''"
  by (simp add: translate_text_def translate_try_def constant_services_def strip_def isspace_def
        Let_def)

text \<open>
  Claim C5, as amended. For every target language, \<open>translate_text\<close> applied to a value
  whose stripped form is empty returns the empty string and makes no call at all, neither
  to language identification nor to the translation provider; on \<open>""\<close> it returns \<open>""\<close>.
\<close>

theorem translate_text_blank:
  "(strip v = [] \<longrightarrow> translate_text env v target = (Inr [], []))
   \<and> translate_text env [] target = (Inr [], [])"
  by (simp add: translate_text_def translate_try_def Let_def strip_def)

theorem translate_text_blank_witness:
  "strip ''  '' = []
   \<and> translate_text (constant_services (Inr ''en'') (Inr ''hola'')) ''  '' ''es'' = (Inr [], [])"
  using translate_text_blank [of "''  ''" "constant_services (Inr ''en'') (Inr ''hola'')" "''es''"]
  by (simp add: strip_def isspace_def)

text \<open>
  The claim as stated, read as returning the input itself, fails on a value of two
  spaces: the value returned is not the two spaces.
\<close>

theorem translate_text_blank_counterexample:
  "strip ''  '' = []
   \<and> fst (translate_text (constant_services (Inr ''en'') (Inr ''hola'')) ''  '' ''es'')
      \<noteq> Inr ''  ''"
  by (simp add: translate_text_def translate_try_def strip_def isspace_def Let_def)

text \<open>
  Claim C9. For a value with leading or trailing whitespace whose stripped form is not
  empty, every path that keeps the text untranslated (identification raises, the
  identified language is the target, or the provider raises) returns the stripped form,
  which differs from the value given.
\<close>

theorem translate_text_keeps_trimmed:
  assumes "v \<noteq> [] \<and> (isspace (hd v) \<or> isspace (last v))" and "strip v \<noteq> []"
    and "(\<exists>e. detect env (strip v) = Inl e)
         \<or> detect env (strip v) = Inr target
         \<or> (\<exists>lang e. detect env (strip v) = Inr lang \<and> lang \<noteq> target
                      \<and> translate env target (strip v) = Inl e)"
  shows "fst (translate_text env v target) = Inr (strip v)
         \<and> fst (translate_text env v target) \<noteq> Inr v"
proof -
  from assms(3) have "fst (translate_text env v target) = Inr (strip v)"
    by (auto simp: translate_text_def translate_try_def Let_def)
  moreover from assms(1) have "strip v \<noteq> v"
    by (simp add: strip_changes_iff)
  ultimately show ?thesis by simp
qed

theorem translate_text_keeps_trimmed_witness:
  "isspace (hd '' hello '') \<and> strip '' hello '' = ''hello''
   \<and> fst (translate_text (constant_services (Inl LangDetectException) (Inr ''hola'')) '' hello '' ''es'')
      = Inr ''hello''
   \<and> fst (translate_text (constant_services (Inr ''es'') (Inr ''hola'')) '' hello '' ''es'')
      = Inr ''hello''
   \<and> fst (translate_text (constant_services (Inr ''en'') (Inl TranslationError)) '' hello '' ''es'')
      = Inr ''hello''"
  using translate_text_keeps_trimmed
          [of "'' hello ''" "constant_services (Inl LangDetectException) (Inr ''hola'')" "''es''"]
        translate_text_keeps_trimmed
          [of "'' hello ''" "constant_services (Inr ''es'') (Inr ''hola'')" "''es''"]
        translate_text_keeps_trimmed
          [of "'' hello ''" "constant_services (Inr ''en'') (Inl TranslationError)" "''es''"]
  by (simp add: constant_services_def strip_def isspace_def)

section \<open>Sheets written by the processing loop\<close>

text \<open>Neither row expansion nor translation raises; only \<open>to_excel\<close> can stop the loop.\<close>

lemma traverse_total:
  assumes "\<And>x. \<exists>y. f x = Inr y"
  shows "\<exists>ys. traverse f xs = Inr ys"
proof (induction xs)
  case Nil
  show ?case by simp
next
  case (Cons x xs)
  from assms obtain y where "f x = Inr y" by blast
  with Cons show ?case by auto
qed

lemma translate_df_total: "\<exists>frame'. translate_df env frame lang = Inr frame'"
proof -
  have "\<exists>ys. traverse (\<lambda>x. fst (translate_text env x lang)) row = Inr ys" for row
    by (rule traverse_total) (rule translate_text_returns)
  then have "\<exists>new_rows. traverse (traverse (\<lambda>x. fst (translate_text env x lang))) (rows frame) = Inr new_rows"
    by (rule traverse_total)
  then show ?thesis by (auto simp: translate_df_def)
qed

lemma split_merged_rows_total: "\<exists>frame'. split_merged_rows frame = Inr frame'"
  using split_loop_concat [of "rows frame" "[]"] by (auto simp: split_merged_rows_def)

lemma length_update_le: "length (AList.update k v al) \<le> Suc (length al)"
  by (induction al) simp_all

lemma digit_chars:
  "digit_char 0 = CHR ''0''" "digit_char 1 = CHR ''1''" "digit_char (Suc 0) = CHR ''1''"
  "digit_char 2 = CHR ''2''" "digit_char 3 = CHR ''3''" "digit_char 4 = CHR ''4''"
  "digit_char 5 = CHR ''5''" "digit_char 6 = CHR ''6''" "digit_char 7 = CHR ''7''"
  "digit_char 8 = CHR ''8''" "digit_char 9 = CHR ''9''"
  by code_simp+

lemma to_excel_titles:
  assumes "to_excel frame writer name = Inr writer'"
  shows "set (map fst writer') = insert name (set (map fst writer))"
    and "length writer' \<le> Suc (length writer)"
proof -
  from assms obtain sheet where w': "writer' = AList.update name sheet writer"
    by (auto simp: to_excel_def split: if_splits sum.splits)
  show "set (map fst writer') = insert name (set (map fst writer))"
    unfolding w' by (simp add: update_keys) auto
  show "length writer' \<le> Suc (length writer)"
    unfolding w' by (rule length_update_le)
qed

lemma process_loop_names:
  "process_loop env en lang its (writer, all_dfs) = Inr (writer', names') \<Longrightarrow>
     names' = all_dfs @ map (\<lambda>(i, t). take 31 (sheet_name_of (page t) i))
                            (filter (\<lambda>(i, t). \<not> df_empty (df t)) its)
     \<and> set (map fst writer') =
          set (map fst writer) \<union> set (map (\<lambda>(i, t). take 31 (sheet_name_of (page t) i))
                                            (filter (\<lambda>(i, t). \<not> df_empty (df t)) its))
     \<and> length writer' \<le> length writer + length (filter (\<lambda>(i, t). \<not> df_empty (df t)) its)"
proof (induction its arbitrary: writer all_dfs)
  case Nil
  then show ?case by simp
next
  case (Cons it rest)
  obtain i t where it: "it = (i, t)" by (cases it)
  show ?case
  proof (cases "df_empty (df t)")
    case True
    with Cons.prems it have "process_loop env en lang rest (writer, all_dfs) = Inr (writer', names')"
      by simp
    from Cons.IH [OF this] True it show ?thesis by simp
  next
    case False
    with Cons.prems it obtain frame writer1 where
      written: "format_excel writer (sheet_name_of (page t) i) frame = Inr writer1"
      and rest: "process_loop env en lang rest
                   (writer1, all_dfs @ [take 31 (sheet_name_of (page t) i)]) = Inr (writer', names')"
      by (auto simp: Let_def split: sum.splits if_splits)
    from written have w1: "set (map fst writer1)
                             = insert (take 31 (sheet_name_of (page t) i)) (set (map fst writer))"
      and l1: "length writer1 \<le> Suc (length writer)"
      using to_excel_titles [of frame writer "take 31 (sheet_name_of (page t) i)" writer1]
      by (simp_all add: format_excel_def)
    from Cons.IH [OF rest] w1 l1 False it show ?thesis
      by auto
  qed
qed

lemma process_tables_names:
  assumes "process_tables env en lang tables = Inr (writer, names)"
  shows "names = map (\<lambda>(i, t). take 31 (sheet_name_of (page t) i))
                     (filter (\<lambda>(i, t). \<not> df_empty (df t)) (enumerate 0 tables))"
    and "set (map fst writer) = set names"
    and "length writer \<le> length names"
  using process_loop_names [of env en lang "enumerate 0 tables" "[]" "[]" writer names] assms
  by (simp_all add: process_tables_def)

lemma filter_enumerate_snd:
  "map snd (filter (\<lambda>(i, t). Q t) (enumerate n xs)) = filter Q xs"
proof -
  have eq: "(\<lambda>(i, t). Q t) = Q \<circ> snd" by auto
  show ?thesis
    unfolding eq by (metis filter_map map_snd_enumerate)
qed

lemma recorded_name_origin:
  assumes "name \<in> set (map (\<lambda>(i, t). take 31 (sheet_name_of (page t) i))
                          (filter (\<lambda>(i, t). \<not> df_empty (df t)) (enumerate 0 tables)))"
  shows "length name \<le> 31
         \<and> (\<exists>i < length tables. \<not> df_empty (df (tables ! i))
              \<and> name = take 31 (''Page_'' @ str_int (page (tables ! i)) @ ''_Table_''
                                 @ str_int (int i + 1)))"
proof -
  from assms obtain i t where
    it: "(i, t) \<in> set (enumerate 0 tables)" and ne: "\<not> df_empty (df t)"
    and name: "name = take 31 (sheet_name_of (page t) i)"
    by auto
  from it have "i < length tables" and "t = tables ! i"
    by (simp_all add: in_set_enumerate_eq)
  with name ne show ?thesis
    by (auto simp: sheet_name_of_def)
qed

text \<open>The definitions unfolded to run the loop on the sample tables.\<close>

lemmas run_defs =
  process_tables_def enumerate_eq_zip merged_table_def no_rows_table_def form_feed_table_def
  df_empty_def split_merged_rows_def expand_row_def segments_def newline_def
  format_excel_def to_excel_def check_string_def illegal_character_def constant_services_def
  sheet_name_of_def str_int_def str_nat.simps digit_chars strip_def isspace_def Let_def

lemma big_page_length:
  "length (''Page_'' @ str_int 12345678901234567890 @ ''_Table_'' @ str_int (int 1 + 1)) = 33"
  by (simp add: str_int_def str_nat.simps)

lemma big_page_run:
  "process_tables (constant_services (Inr ''en'') (Inr ''hola'')) False ''en''
       [merged_table, merged_table\<lparr>page := 12345678901234567890\<rparr>]
     = Inr ([(''Page_1_Table_1'', [[''0'', ''1''], [''X'', ''A''], ['''', ''B'']]),
             (''Page_12345678901234567890_Table'', [[''0'', ''1''], [''X'', ''A''], ['''', ''B'']])],
            [''Page_1_Table_1'', ''Page_12345678901234567890_Table''])"
  by (simp add: run_defs)

lemma same_name_run:
  "process_tables (constant_services (Inr ''en'') (Inr ''hola'')) False ''en''
       [merged_table\<lparr>page := 12345678901234567890\<rparr>,
        merged_table\<lparr>page := 12345678901234567890\<rparr>]
     = Inr ([(''Page_12345678901234567890_Table'', [[''0'', ''1''], [''X'', ''A''], ['''', ''B'']])],
            [''Page_12345678901234567890_Table'', ''Page_12345678901234567890_Table''])"
  by (simp add: run_defs)

lemma form_feed_run:
  "process_tables (constant_services (Inr ''en'') (Inr ''hola'')) False ''en'' [form_feed_table]
     = Inl IllegalCharacterError"
  by (simp add: run_defs)

lemma skipped_run:
  "process_tables (constant_services (Inr ''en'') (Inr ''hola'')) False ''en''
       [no_rows_table, merged_table]
     = Inr ([(''Page_1_Table_2'', [[''0'', ''1''], [''X'', ''A''], ['''', ''B'']])],
            [''Page_1_Table_2''])"
  by (simp add: run_defs)

text \<open>
  Claim C6. In every run of the processing loop that completes, the titles of the sheets
  in the writer are the names recorded in \<open>all_dfs\<close>, and each of them is
  \<open>Page_<page>_Table_<index>\<close> of some table, with the table's page and its 1-based
  position, cut to its first 31 characters; so it has at most 31 characters. (The loop
  raises when \<open>to_excel\<close> refuses a frame; then no workbook is produced.)
\<close>

theorem sheet_names_truncated:
  assumes "process_tables env en lang tables = Inr (writer, names)"
  shows "set (map fst writer) = set names
         \<and> (\<forall>name \<in> set names.
               length name \<le> 31
               \<and> (\<exists>i < length tables.
                     name = take 31 (''Page_'' @ str_int (page (tables ! i)) @ ''_Table_''
                                      @ str_int (int i + 1))))"
  using process_tables_names(1,2) [OF assms] recorded_name_origin [of _ tables]
  by blast

theorem sheet_names_truncated_witness:
  "process_tables (constant_services (Inr ''en'') (Inr ''hola'')) False ''en''
       [merged_table, merged_table\<lparr>page := 12345678901234567890\<rparr>]
     = Inr ([(''Page_1_Table_1'', [[''0'', ''1''], [''X'', ''A''], ['''', ''B'']]),
             (''Page_12345678901234567890_Table'', [[''0'', ''1''], [''X'', ''A''], ['''', ''B'']])],
            [''Page_1_Table_1'', ''Page_12345678901234567890_Table''])
   \<and> length ''Page_12345678901234567890_Table'' = 31
   \<and> length (''Page_'' @ str_int 12345678901234567890 @ ''_Table_'' @ str_int (int 1 + 1)) = 33
   \<and> process_tables (constant_services (Inr ''en'') (Inr ''hola'')) False ''en''
       [merged_table\<lparr>page := 12345678901234567890\<rparr>,
        merged_table\<lparr>page := 12345678901234567890\<rparr>]
     = Inr ([(''Page_12345678901234567890_Table'', [[''0'', ''1''], [''X'', ''A''], ['''', ''B'']])],
            [''Page_12345678901234567890_Table'', ''Page_12345678901234567890_Table''])
   \<and> process_tables (constant_services (Inr ''en'') (Inr ''hola'')) False ''en'' [form_feed_table]
     = Inl IllegalCharacterError"
  using sheet_names_truncated [OF big_page_run] big_page_run big_page_length same_name_run
    form_feed_run
  by simp

text \<open>
  Claim C7. A table without data rows is skipped: the iteration on it leaves the writer
  and the list of names as they were. In a run that completes, every sheet of the writer
  carries the name of a table that is not empty, and the sheets are at most as many as
  those tables.
\<close>

theorem empty_table_writes_no_sheet:
  "(rows (df table) = [] \<longrightarrow>
      process_loop env en lang ((i, table) # rest) (sheets, all_dfs)
        = process_loop env en lang rest (sheets, all_dfs))
   \<and> (process_tables env en lang tables = Inr (writer, names) \<longrightarrow>
         (\<forall>title \<in> set (map fst writer).
            \<exists>k < length tables. \<not> df_empty (df (tables ! k))
               \<and> title = take 31 (''Page_'' @ str_int (page (tables ! k)) @ ''_Table_''
                                   @ str_int (int k + 1)))
         \<and> length writer \<le> length (filter (\<lambda>t. \<not> df_empty (df t)) tables))"
proof (intro conjI impI)
  show "process_loop env en lang ((i, table) # rest) (sheets, all_dfs)
        = process_loop env en lang rest (sheets, all_dfs)" if "rows (df table) = []"
    using that by (simp add: df_empty_def)
next
  assume run: "process_tables env en lang tables = Inr (writer, names)"
  show "\<forall>title \<in> set (map fst writer).
            \<exists>k < length tables. \<not> df_empty (df (tables ! k))
               \<and> title = take 31 (''Page_'' @ str_int (page (tables ! k)) @ ''_Table_''
                                   @ str_int (int k + 1))"
    using process_tables_names(1,2) [OF run] recorded_name_origin [of _ tables]
    by blast
next
  assume run: "process_tables env en lang tables = Inr (writer, names)"
  have "length names
          = length (map snd (filter (\<lambda>(i, t). \<not> df_empty (df t)) (enumerate 0 tables)))"
    using process_tables_names(1) [OF run] by simp
  also have "\<dots> = length (filter (\<lambda>t. \<not> df_empty (df t)) tables)"
    by (simp only: filter_enumerate_snd)
  finally show "length writer \<le> length (filter (\<lambda>t. \<not> df_empty (df t)) tables)"
    using process_tables_names(3) [OF run] by simp
qed

theorem empty_table_writes_no_sheet_witness:
  "rows (df no_rows_table) = []
   \<and> process_loop (constant_services (Inr ''en'') (Inr ''hola'')) False ''en''
        [(0, no_rows_table)] ([], []) = Inr ([], [])
   \<and> process_tables (constant_services (Inr ''en'') (Inr ''hola'')) False ''en''
        [no_rows_table, merged_table]
      = Inr ([(''Page_1_Table_2'', [[''0'', ''1''], [''X'', ''A''], ['''', ''B'']])],
             [''Page_1_Table_2''])
   \<and> length [(''Page_1_Table_2'', [[''0'', ''1''], [''X'', ''A''], ['''', ''B'']])]
      \<le> length (filter (\<lambda>t. \<not> df_empty (df t)) [no_rows_table, merged_table])"
  using empty_table_writes_no_sheet
          [where table = no_rows_table and i = 0 and rest = "[]" and sheets = "[]"
             and all_dfs = "[]" and env = "constant_services (Inr ''en'') (Inr ''hola'')"
             and en = False and lang = "''en''" and tables = "[no_rows_table, merged_table]"
             and writer = "[(''Page_1_Table_2'', [[''0'', ''1''], [''X'', ''A''], ['''', ''B'']])]"
             and names = "[''Page_1_Table_2'']"]
        skipped_run
  by (simp add: no_rows_table_def merged_table_def df_empty_def)

text \<open>
  Claim C10. In a run that completes, the names recorded are, in order, those of the
  non-empty tables, each with the table's position in the whole sequence of extracted
  tables plus one: the count runs over all tables, the skipped ones included, and does
  not restart with the page. Without translation, an empty table followed by the sample
  table gives the single name \<open>Page_1_Table_2\<close>, and the sample table on pages 1 and 2
  gives \<open>Page_1_Table_1\<close> and \<open>Page_2_Table_2\<close>.
\<close>

theorem sheet_index_is_document_position:
  "(process_tables env en lang tables = Inr (writer, names) \<longrightarrow>
      names = map (\<lambda>(i, t). take 31 (''Page_'' @ str_int (page t) @ ''_Table_''
                                          @ str_int (int i + 1)))
                  (filter (\<lambda>(i, t). \<not> df_empty (df t)) (enumerate 0 tables))
      \<and> set (map fst writer) = set names)
   \<and> (\<exists>sheets. process_tables env False lang [no_rows_table, merged_table]
                  = Inr (sheets, [''Page_1_Table_2'']))
   \<and> (\<exists>sheets. process_tables env False lang [merged_table, merged_table\<lparr>page := 2\<rparr>]
                  = Inr (sheets, [''Page_1_Table_1'', ''Page_2_Table_2'']))"
proof (intro conjI impI)
  assume run: "process_tables env en lang tables = Inr (writer, names)"
  show "names = map (\<lambda>(i, t). take 31 (''Page_'' @ str_int (page t) @ ''_Table_''
                                          @ str_int (int i + 1)))
                  (filter (\<lambda>(i, t). \<not> df_empty (df t)) (enumerate 0 tables))"
    using process_tables_names(1) [OF run] unfolding sheet_name_of_def .
  show "set (map fst writer) = set names"
    using process_tables_names(2) [OF run] .
next
  show "\<exists>sheets. process_tables env False lang [no_rows_table, merged_table]
                  = Inr (sheets, [''Page_1_Table_2''])"
    by (simp add: process_tables_def enumerate_eq_zip merged_table_def no_rows_table_def
          df_empty_def split_merged_rows_def expand_row_def segments_def newline_def
          format_excel_def to_excel_def check_string_def illegal_character_def
          sheet_name_of_def str_int_def str_nat.simps digit_chars strip_def isspace_def Let_def)
next
  show "\<exists>sheets. process_tables env False lang [merged_table, merged_table\<lparr>page := 2\<rparr>]
                  = Inr (sheets, [''Page_1_Table_1'', ''Page_2_Table_2''])"
    by (simp add: process_tables_def enumerate_eq_zip merged_table_def no_rows_table_def
          df_empty_def split_merged_rows_def expand_row_def segments_def newline_def
          format_excel_def to_excel_def check_string_def illegal_character_def
          sheet_name_of_def str_int_def str_nat.simps digit_chars strip_def isspace_def Let_def)
qed

theorem sheet_index_is_document_position_witness:
  "process_tables (constant_services (Inr ''en'') (Inr ''hola'')) False ''en''
       [no_rows_table, merged_table]
     = Inr ([(''Page_1_Table_2'', [[''0'', ''1''], [''X'', ''A''], ['''', ''B'']])],
            [''Page_1_Table_2''])
   \<and> map (\<lambda>(i, t). take 31 (''Page_'' @ str_int (page t) @ ''_Table_'' @ str_int (int i + 1)))
         (filter (\<lambda>(i, t). \<not> df_empty (df t)) (enumerate 0 [no_rows_table, merged_table]))
     = [''Page_1_Table_2'']"
  using sheet_index_is_document_position
          [where env = "constant_services (Inr ''en'') (Inr ''hola'')" and en = False
             and lang = "''en''" and tables = "[no_rows_table, merged_table]"
             and writer = "[(''Page_1_Table_2'', [[''0'', ''1''], [''X'', ''A''], ['''', ''B'']])]"
             and names = "[''Page_1_Table_2'']"]
        skipped_run
  by simp

section \<open>Formatting pass\<close>

lemma set_widths_keeps_width:
  "set_widths cols dims = Inr dims' \<Longrightarrow> map_of dims k = Some d \<Longrightarrow> width d = 35 \<Longrightarrow>
     \<exists>d'. map_of dims' k = Some d' \<and> width d' = 35"
proof (induction cols arbitrary: dims d)
  case Nil
  then show ?case by simp
next
  case (Cons col cols)
  from Cons.prems(1) obtain l where l: "get_column_letter col = Inr l"
    and rest: "set_widths cols (AList.update l ((dimension_at dims l)\<lparr>width := 35\<rparr>) dims) = Inr dims'"
    by (auto split: sum.splits)
  have "\<exists>d1. map_of (AList.update l ((dimension_at dims l)\<lparr>width := 35\<rparr>) dims) k = Some d1
              \<and> width d1 = 35"
    using Cons.prems(2,3) by (simp add: update_conv')
  then obtain d1 where "map_of (AList.update l ((dimension_at dims l)\<lparr>width := 35\<rparr>) dims) k = Some d1"
    "width d1 = 35" by blast
  with Cons.IH [OF rest] show ?case by blast
qed

lemma set_widths_idem:
  "set_widths cols dims = Inr dims' \<Longrightarrow> set_widths cols dims' = Inr dims'"
proof (induction cols arbitrary: dims)
  case Nil
  then show ?case by simp
next
  case (Cons col cols)
  from Cons.prems obtain l where l: "get_column_letter col = Inr l"
    and rest: "set_widths cols (AList.update l ((dimension_at dims l)\<lparr>width := 35\<rparr>) dims) = Inr dims'"
    by (auto split: sum.splits)
  have "map_of (AList.update l ((dimension_at dims l)\<lparr>width := 35\<rparr>) dims) l
          = Some ((dimension_at dims l)\<lparr>width := 35\<rparr>)"
    by (simp add: update_conv')
  from set_widths_keeps_width [OF rest this] obtain d' where
    d': "map_of dims' l = Some d'" "width d' = 35"
    by auto
  then have "(dimension_at dims' l)\<lparr>width := 35\<rparr> = d'"
    by (simp add: dimension_at_def)
  with d'(1) have "AList.update l ((dimension_at dims' l)\<lparr>width := 35\<rparr>) dims' = dims'"
    by (simp add: update_triv)
  with l Cons.IH [OF rest] show ?case by simp
qed

lemma ws_columns_wrapped:
  "ws_columns \<lparr>cells = map (map f) (cells ws), column_dimensions = dims\<rparr> = ws_columns ws"
  by (cases "cells ws") (simp_all add: ws_columns_def)

lemma format_sheet_idem: "format_sheet ws = Inr ws' \<Longrightarrow> format_sheet ws' = Inr ws'"
proof -
  assume a: "format_sheet ws = Inr ws'"
  then obtain dims where dims: "set_widths (ws_columns ws) (column_dimensions ws) = Inr dims"
    and ws': "ws' = \<lparr>cells = map (map (\<lambda>cell. cell\<lparr>alignment := wrap_alignment\<rparr>)) (cells ws),
                     column_dimensions = dims\<rparr>"
    by (auto simp: format_sheet_def Let_def split: sum.splits)
  have "set_widths (ws_columns ws') (column_dimensions ws') = Inr dims"
    using set_widths_idem [OF dims] by (simp add: ws' ws_columns_wrapped)
  then show ?thesis
    by (simp add: format_sheet_def ws' o_def)
qed

lemma format_loop_keeps_formatted:
  "format_loop sheets wb = Inr wb' \<Longrightarrow> map_of wb s = Some w \<Longrightarrow> format_sheet w = Inr w \<Longrightarrow>
     \<exists>w'. map_of wb' s = Some w' \<and> format_sheet w' = Inr w'"
proof (induction sheets arbitrary: wb w)
  case Nil
  then show ?case by simp
next
  case (Cons sheet sheets)
  from Cons.prems(1) obtain ws ws1 where ws: "map_of wb sheet = Some ws"
    and ws1: "format_sheet ws = Inr ws1"
    and rest: "format_loop sheets (AList.update sheet ws1 wb) = Inr wb'"
    by (auto split: option.splits sum.splits)
  have "\<exists>w1. map_of (AList.update sheet ws1 wb) s = Some w1 \<and> format_sheet w1 = Inr w1"
    using Cons.prems(2,3) format_sheet_idem [OF ws1] by (simp add: update_conv')
  then obtain w1 where "map_of (AList.update sheet ws1 wb) s = Some w1" "format_sheet w1 = Inr w1"
    by blast
  with Cons.IH [OF rest] show ?case by blast
qed

lemma format_loop_idem:
  "format_loop sheets wb = Inr wb' \<Longrightarrow> format_loop sheets wb' = Inr wb'"
proof (induction sheets arbitrary: wb)
  case Nil
  then show ?case by simp
next
  case (Cons sheet sheets)
  from Cons.prems obtain ws ws1 where ws: "map_of wb sheet = Some ws"
    and ws1: "format_sheet ws = Inr ws1"
    and rest: "format_loop sheets (AList.update sheet ws1 wb) = Inr wb'"
    by (auto split: option.splits sum.splits)
  have "map_of (AList.update sheet ws1 wb) sheet = Some ws1"
    by (simp add: update_conv')
  from format_loop_keeps_formatted [OF rest this format_sheet_idem [OF ws1]] obtain w' where
    w': "map_of wb' sheet = Some w'" "format_sheet w' = Inr w'"
    by auto
  then have "AList.update sheet w' wb' = wb'"
    by (simp add: update_triv)
  with w' Cons.IH [OF rest] show ?case by simp
qed

text \<open>
  Claim C8. \<open>post_formatting\<close> is idempotent: when the pass succeeds, a second pass over
  its result with the same sheet names succeeds and gives the same workbook; when it
  raises, the buffer is not written and the second pass is the first one again.
\<close>

theorem post_formatting_idempotent:
  "(case post_formatting excel_io sheet_names of
      Inl e \<Rightarrow> Inl e
    | Inr formatted \<Rightarrow> post_formatting formatted sheet_names)
   = post_formatting excel_io sheet_names"
  by (auto simp: post_formatting_def split: sum.splits dest: format_loop_idem)

theorem post_formatting_idempotent_witness:
  "post_formatting sample_workbook [''Page_1_Table_1'']
     = Inr [(''Page_1_Table_1'',
             \<lparr>cells = [[\<lparr>cell_value = ''0'', alignment = wrap_alignment\<rparr>,
                        \<lparr>cell_value = ''1'', alignment = wrap_alignment\<rparr>]],
              column_dimensions = [(''A'', \<lparr>width = 35, hidden = False\<rparr>),
                                   (''B'', \<lparr>width = 35, hidden = False\<rparr>)]\<rparr>)]
   \<and> post_formatting
         [(''Page_1_Table_1'',
           \<lparr>cells = [[\<lparr>cell_value = ''0'', alignment = wrap_alignment\<rparr>,
                      \<lparr>cell_value = ''1'', alignment = wrap_alignment\<rparr>]],
            column_dimensions = [(''A'', \<lparr>width = 35, hidden = False\<rparr>),
                                 (''B'', \<lparr>width = 35, hidden = False\<rparr>)]\<rparr>)]
         [''Page_1_Table_1'']
     = Inr [(''Page_1_Table_1'',
             \<lparr>cells = [[\<lparr>cell_value = ''0'', alignment = wrap_alignment\<rparr>,
                        \<lparr>cell_value = ''1'', alignment = wrap_alignment\<rparr>]],
              column_dimensions = [(''A'', \<lparr>width = 35, hidden = False\<rparr>),
                                   (''B'', \<lparr>width = 35, hidden = False\<rparr>)]\<rparr>)]
   \<and> post_formatting sample_workbook [''Page_9_Table_9''] = Inl (KeyError ''Page_9_Table_9'')"
proof -
  have once: "post_formatting sample_workbook [''Page_1_Table_1'']
     = Inr [(''Page_1_Table_1'',
             \<lparr>cells = [[\<lparr>cell_value = ''0'', alignment = wrap_alignment\<rparr>,
                        \<lparr>cell_value = ''1'', alignment = wrap_alignment\<rparr>]],
              column_dimensions = [(''A'', \<lparr>width = 35, hidden = False\<rparr>),
                                   (''B'', \<lparr>width = 35, hidden = False\<rparr>)]\<rparr>)]"
    by code_simp
  have missing: "post_formatting sample_workbook [''Page_9_Table_9''] = Inl (KeyError ''Page_9_Table_9'')"
    by code_simp
  from post_formatting_idempotent
         [where excel_io = sample_workbook and sheet_names = "[''Page_1_Table_1'']"] once missing
  show ?thesis by simp
qed

end
